theory Spec2Isabelle
  imports Main "HOL-Library.Word"
begin

section \<open>The form constructor of App.tsx\<close>

text \<open>
  The program is one React component holding four pieces of state (the field list, the
  draft label, the draft type and the status message) and a handful of event handlers
  that rewrite them. The handlers are embedded as functions from the state of the
  component to the list of effects they issue; running a handler applies its effects in
  order. A handler that dereferences a missing registry entry throws, which is the
  \<open>Inl\<close> branch of its result.
\<close>

subsection \<open>Strings\<close>

text \<open>
  A JavaScript string is a sequence of UTF-16 code units. The Russian texts of the source
  are written out as their code units; ASCII texts go through \<open>js\<close>.
\<close>

type_synonym jsstring = "16 word list"

definition js :: "string \<Rightarrow> jsstring" where
  "js s = map of_char s"

text \<open>\<open>!s\<close> on a string, and \<open>!e\<close> on a \<open>string | null\<close>: only the empty string and null
  are falsy.\<close>

definition truthy :: "jsstring \<Rightarrow> bool" where
  "truthy s = (s \<noteq> [])"

definition truthy_opt :: "jsstring option \<Rightarrow> bool" where
  "truthy_opt e = (case e of None \<Rightarrow> False | Some s \<Rightarrow> truthy s)"

text \<open>The code units that \<open>String.prototype.trim\<close> strips and that \<open>Number\<close> skips around a
  numeric literal: ECMAScript's WhiteSpace and LineTerminator.\<close>

definition is_js_whitespace :: "16 word \<Rightarrow> bool" where
  "is_js_whitespace c =
     (c = 0x9 \<or> c = 0xA \<or> c = 0xB \<or> c = 0xC \<or> c = 0xD \<or> c = 0x20 \<or> c = 0xA0 \<or>
      c = 0x1680 \<or> (0x2000 \<le> c \<and> c \<le> 0x200A) \<or> c = 0x2028 \<or> c = 0x2029 \<or>
      c = 0x202F \<or> c = 0x205F \<or> c = 0x3000 \<or> c = 0xFEFF)"

definition js_trim :: "jsstring \<Rightarrow> jsstring" where
  "js_trim s = rev (dropWhile is_js_whitespace (rev (dropWhile is_js_whitespace s)))"

subsection \<open>\<open>isNaN(Number(value))\<close>\<close>

text \<open>
  \<open>Number\<close> applied to a string is NaN exactly when the trimmed string is not derivable
  from ECMAScript's StringNumericLiteral: the empty string, a signed decimal literal
  (\<open>Infinity\<close>, digits with an optional fraction and exponent), or an unsigned binary,
  octal or hexadecimal integer literal. A literal too large for a double is Infinity,
  which is not NaN.
\<close>

definition is_digit :: "16 word \<Rightarrow> bool" where
  "is_digit c = (0x30 \<le> c \<and> c \<le> 0x39)"

definition is_bin_digit :: "16 word \<Rightarrow> bool" where
  "is_bin_digit c = (c = 0x30 \<or> c = 0x31)"

definition is_oct_digit :: "16 word \<Rightarrow> bool" where
  "is_oct_digit c = (0x30 \<le> c \<and> c \<le> 0x37)"

definition is_hex_digit :: "16 word \<Rightarrow> bool" where
  "is_hex_digit c = (is_digit c \<or> (0x41 \<le> c \<and> c \<le> 0x46) \<or> (0x61 \<le> c \<and> c \<le> 0x66))"

definition decimal_digits :: "jsstring \<Rightarrow> bool" where
  "decimal_digits s = (s \<noteq> [] \<and> list_all is_digit s)"

definition signed_integer :: "jsstring \<Rightarrow> bool" where
  "signed_integer s =
     (case s of
        [] \<Rightarrow> False
      | c # r \<Rightarrow> if c = 0x2B \<or> c = 0x2D then decimal_digits r else decimal_digits s)"

definition exponent_part_opt :: "jsstring \<Rightarrow> bool" where
  "exponent_part_opt s =
     (case s of
        [] \<Rightarrow> True
      | c # r \<Rightarrow> (c = 0x65 \<or> c = 0x45) \<and> signed_integer r)"

definition str_unsigned_decimal_literal :: "jsstring \<Rightarrow> bool" where
  "str_unsigned_decimal_literal s =
     (s = js ''Infinity'' \<or>
      (let ip = takeWhile is_digit s; r = dropWhile is_digit s
       in case r of
            [] \<Rightarrow> ip \<noteq> []
          | c # r' \<Rightarrow>
              if c = 0x2E
              then (ip \<noteq> [] \<or> takeWhile is_digit r' \<noteq> []) \<and>
                   exponent_part_opt (dropWhile is_digit r')
              else ip \<noteq> [] \<and> exponent_part_opt r))"

definition str_decimal_literal :: "jsstring \<Rightarrow> bool" where
  "str_decimal_literal s =
     (case s of
        [] \<Rightarrow> False
      | c # r \<Rightarrow> if c = 0x2B \<or> c = 0x2D then str_unsigned_decimal_literal r
                 else str_unsigned_decimal_literal s)"

definition non_decimal_integer_literal :: "jsstring \<Rightarrow> bool" where
  "non_decimal_integer_literal s =
     (case s of
        z # p # ds \<Rightarrow>
          z = 0x30 \<and> ds \<noteq> [] \<and>
          (if p = 0x62 \<or> p = 0x42 then list_all is_bin_digit ds
           else if p = 0x6F \<or> p = 0x4F then list_all is_oct_digit ds
           else if p = 0x78 \<or> p = 0x58 then list_all is_hex_digit ds
           else False)
      | _ \<Rightarrow> False)"

definition string_numeric_literal :: "jsstring \<Rightarrow> bool" where
  "string_numeric_literal s =
     (let t = js_trim s
      in t = [] \<or> str_decimal_literal t \<or> non_decimal_integer_literal t)"

definition isNaN_Number :: "jsstring \<Rightarrow> bool" where
  "isNaN_Number s = (\<not> string_numeric_literal s)"

subsection \<open>The data model\<close>

text \<open>
  \<open>FieldType\<close> is a union of three string literals, and the type selector of a field
  casts whatever the DOM hands over to it (\<open>e.target.value as FieldType\<close>), so at run time
  a type tag is a string. The record fields carry a prime where the source's name is
  taken in Isabelle.
\<close>

record Field =
  id' :: int
  label :: jsstring
  type' :: jsstring
  value' :: jsstring
  error :: "jsstring option"

text \<open>A registry entry; \<open>render\<close> builds markup only and is left out.\<close>

datatype FieldConfig = FieldConfig (config_label: jsstring) (validate: "jsstring \<Rightarrow> jsstring option")

definition msg_required :: jsstring where
  "msg_required = [0x41E, 0x431, 0x44F, 0x437, 0x430, 0x442, 0x435, 0x43B, 0x44C, 0x43D,
                   0x43E, 0x435, 0x20, 0x43F, 0x43E, 0x43B, 0x435]"

definition msg_not_a_number :: jsstring where
  "msg_not_a_number = [0x417, 0x43D, 0x430, 0x447, 0x435, 0x43D, 0x438, 0x435, 0x20, 0x434,
                       0x43E, 0x43B, 0x436, 0x43D, 0x43E, 0x20, 0x431, 0x44B, 0x442, 0x44C,
                       0x20, 0x447, 0x438, 0x441, 0x43B, 0x43E, 0x43C]"

definition msg_enter_label :: jsstring where
  "msg_enter_label = [0x412, 0x432, 0x435, 0x434, 0x438, 0x442, 0x435, 0x20, 0x43D, 0x430,
                      0x437, 0x432, 0x430, 0x43D, 0x438, 0x435, 0x20, 0x43F, 0x43E, 0x43B, 0x44F]"

definition msg_form_invalid :: jsstring where
  "msg_form_invalid = [0x424, 0x43E, 0x440, 0x43C, 0x430, 0x20, 0x437, 0x430, 0x43F, 0x43E,
                       0x43B, 0x43D, 0x435, 0x43D, 0x430, 0x20, 0x43D, 0x435, 0x43A, 0x43E,
                       0x440, 0x440, 0x435, 0x43A, 0x442, 0x43D, 0x43E]"

definition msg_form_ok :: jsstring where
  "msg_form_ok = [0x424, 0x43E, 0x440, 0x43C, 0x430, 0x20, 0x437, 0x430, 0x43F, 0x43E,
                  0x43B, 0x43D, 0x435, 0x43D, 0x430, 0x20, 0x443, 0x441, 0x43F, 0x435,
                  0x448, 0x43D, 0x43E, 0x21]"

definition validate_text :: "jsstring \<Rightarrow> jsstring option" where
  "validate_text v = (if length v = 0 then Some msg_required else None)"

definition validate_number :: "jsstring \<Rightarrow> jsstring option" where
  "validate_number v =
     (if length v = 0 then Some msg_required
      else if truthy v \<and> isNaN_Number v then Some msg_not_a_number
      else None)"

definition validate_select :: "jsstring \<Rightarrow> jsstring option" where
  "validate_select v = (if length v = 0 then Some msg_required else None)"

text \<open>The registry, in the order of the object literal. A key it does not hold reads as
  \<open>undefined\<close>, here \<open>None\<close>.\<close>

definition fieldTypes_entries :: "(jsstring \<times> FieldConfig) list" where
  "fieldTypes_entries =
     [(js ''text'', FieldConfig [0x421, 0x442, 0x440, 0x43E, 0x43A, 0x430] validate_text),
      (js ''number'', FieldConfig [0x427, 0x438, 0x441, 0x43B, 0x430] validate_number),
      (js ''select'', FieldConfig [0x421, 0x43F, 0x438, 0x441, 0x43E, 0x43A] validate_select)]"

definition fieldTypes :: "jsstring \<Rightarrow> FieldConfig option" where
  "fieldTypes t = map_of fieldTypes_entries t"

definition registered :: "jsstring \<Rightarrow> bool" where
  "registered t = (t \<in> set (map fst fieldTypes_entries))"

record App =
  fields' :: "Field list"
  newFieldLabel :: jsstring
  newFieldType :: jsstring
  message :: jsstring
  alerts :: "jsstring list"

text \<open>The four \<open>useState\<close> initial values; \<open>alerts\<close> logs the texts passed to \<open>alert\<close>.\<close>

definition init :: App where
  "init = \<lparr>fields' = [], newFieldLabel = [], newFieldType = js ''text'', message = [],
           alerts = []\<rparr>"

subsection \<open>Effects\<close>

datatype js_exception = TypeError

datatype effect =
    SetFields "Field list"
  | SetNewFieldLabel jsstring
  | SetNewFieldType jsstring
  | SetMessage jsstring
  | Alert jsstring

fun apply_effect :: "App \<Rightarrow> effect \<Rightarrow> App" where
  "apply_effect st (SetFields fs) = st\<lparr>fields' := fs\<rparr>"
| "apply_effect st (SetNewFieldLabel l) = st\<lparr>newFieldLabel := l\<rparr>"
| "apply_effect st (SetNewFieldType t) = st\<lparr>newFieldType := t\<rparr>"
| "apply_effect st (SetMessage m) = st\<lparr>message := m\<rparr>"
| "apply_effect st (Alert a) = st\<lparr>alerts := alerts st @ [a]\<rparr>"

definition run :: "js_exception + effect list \<Rightarrow> App \<Rightarrow> js_exception + App" where
  "run r st = (case r of Inl e \<Rightarrow> Inl e | Inr ws \<Rightarrow> Inr (foldl apply_effect st ws))"

text \<open>The states the component passes through while the effects are applied one by one.\<close>

fun states_through :: "App \<Rightarrow> effect list \<Rightarrow> App list" where
  "states_through st [] = [st]"
| "states_through st (w # ws) = st # states_through (apply_effect st w) ws"

text \<open>\<open>Array.prototype.map\<close> with a callback that may throw: the first throw ends it.\<close>

fun map_throwing :: "('a \<Rightarrow> js_exception + 'b) \<Rightarrow> 'a list \<Rightarrow> js_exception + 'b list" where
  "map_throwing f [] = Inr []"
| "map_throwing f (x # xs) =
     (case f x of
        Inl e \<Rightarrow> Inl e
      | Inr y \<Rightarrow> (case map_throwing f xs of Inl e \<Rightarrow> Inl e | Inr ys \<Rightarrow> Inr (y # ys)))"

subsection \<open>The handlers\<close>

text \<open>\<open>addField\<close>; \<open>now\<close> is what \<open>Date.now()\<close> returns.\<close>

definition addField_effects :: "int \<Rightarrow> App \<Rightarrow> effect list" where
  "addField_effects now st =
     (if \<not> truthy (js_trim (newFieldLabel st)) then [Alert msg_enter_label]
      else [SetFields (fields' st @
              [\<lparr>id' = now, label = newFieldLabel st, type' = newFieldType st, value' = [],
                error = None\<rparr>]),
            SetNewFieldLabel []])"

definition addField :: "int \<Rightarrow> App \<Rightarrow> App" where
  "addField now st = foldl apply_effect st (addField_effects now st)"

text \<open>\<open>updateField\<close>; the key ranges over \<open>keyof Omit<Field, "id" | "type">\<close>.\<close>

datatype field_key = Key_label | Key_value | Key_error

definition update_record :: "field_key \<Rightarrow> jsstring \<Rightarrow> Field \<Rightarrow> js_exception + Field" where
  "update_record key v field =
     (case key of
        Key_label \<Rightarrow> Inr (field\<lparr>label := v\<rparr>)
      | Key_error \<Rightarrow> Inr (field\<lparr>error := Some v\<rparr>)
      | Key_value \<Rightarrow>
          (case fieldTypes (type' field) of
             None \<Rightarrow> Inl TypeError
           | Some cfg \<Rightarrow> Inr (field\<lparr>value' := v, error := validate cfg v\<rparr>)))"

definition updateField_effects ::
  "int \<Rightarrow> field_key \<Rightarrow> jsstring \<Rightarrow> App \<Rightarrow> js_exception + effect list" where
  "updateField_effects i key v st =
     (case map_throwing (\<lambda>field. if id' field = i then update_record key v field else Inr field)
             (fields' st) of
        Inl e \<Rightarrow> Inl e
      | Inr fs \<Rightarrow> Inr [SetFields fs])"

definition updateField :: "int \<Rightarrow> field_key \<Rightarrow> jsstring \<Rightarrow> App \<Rightarrow> js_exception + App" where
  "updateField i key v st = run (updateField_effects i key v st) st"

text \<open>\<open>updateLabel\<close>; \<open>answer\<close> is what \<open>prompt\<close> returns, \<open>None\<close> when it is cancelled.\<close>

definition updateLabel :: "int \<Rightarrow> jsstring option \<Rightarrow> App \<Rightarrow> js_exception + App" where
  "updateLabel i answer st =
     (case answer of
        None \<Rightarrow> Inr st
      | Some newLabel \<Rightarrow> if truthy newLabel then updateField i Key_label newLabel st else Inr st)"

definition removeField_effects :: "int \<Rightarrow> App \<Rightarrow> effect list" where
  "removeField_effects i st = [SetFields (filter (\<lambda>field. id' field \<noteq> i) (fields' st))]"

definition removeField :: "int \<Rightarrow> App \<Rightarrow> App" where
  "removeField i st = foldl apply_effect st (removeField_effects i st)"

text \<open>\<open>saveForm\<close>: the callback of \<open>fields.map\<close> also raises the flag \<open>hasError\<close>, which is
  threaded through the traversal.\<close>

fun save_loop :: "Field list \<Rightarrow> bool \<Rightarrow> js_exception + (Field list \<times> bool)" where
  "save_loop [] hasError = Inr ([], hasError)"
| "save_loop (field # rest) hasError =
     (case fieldTypes (type' field) of
        None \<Rightarrow> Inl TypeError
      | Some cfg \<Rightarrow>
          (let err = validate cfg (value' field);
               hasError' = (if truthy_opt err then True else hasError)
           in case save_loop rest hasError' of
                Inl e \<Rightarrow> Inl e
              | Inr (updated, h) \<Rightarrow> Inr (field\<lparr>error := err\<rparr> # updated, h)))"

definition saveForm_effects :: "App \<Rightarrow> js_exception + effect list" where
  "saveForm_effects st =
     (case save_loop (fields' st) False of
        Inl e \<Rightarrow> Inl e
      | Inr (updated, hasError) \<Rightarrow>
          Inr [SetFields updated,
               SetMessage (if hasError then msg_form_invalid else msg_form_ok)])"

definition saveForm :: "App \<Rightarrow> js_exception + App" where
  "saveForm st = run (saveForm_effects st) st"

text \<open>\<open>updateType\<close>; \<open>target_value\<close> is \<open>e.target.value\<close>.\<close>

definition updateType_effects :: "jsstring \<Rightarrow> int \<Rightarrow> App \<Rightarrow> effect list" where
  "updateType_effects target_value i st =
     [SetFields (map (\<lambda>field. if id' field = i
                              then field\<lparr>type' := target_value, value' := []\<rparr>
                              else field)
                     (fields' st))]"

definition updateType :: "jsstring \<Rightarrow> int \<Rightarrow> App \<Rightarrow> App" where
  "updateType target_value i st = foldl apply_effect st (updateType_effects target_value i st)"

subsection \<open>Events\<close>

text \<open>
  What the rendered controls can deliver, each with the handler the component wires to
  it: typing into the draft label, picking the draft type, the add button, the value
  control of a field, its rename button (with the answer of \<open>prompt\<close>), its type
  selector, its remove button, and the save button.
\<close>

datatype event =
    Type_new_label jsstring
  | Pick_new_type jsstring
  | Click_add int
  | Edit_value int jsstring
  | Click_rename int "jsstring option"
  | Pick_type int jsstring
  | Click_remove int
  | Click_save

fun handle :: "event \<Rightarrow> App \<Rightarrow> js_exception + App" where
  "handle (Type_new_label v) st = Inr (apply_effect st (SetNewFieldLabel v))"
| "handle (Pick_new_type t) st = Inr (apply_effect st (SetNewFieldType t))"
| "handle (Click_add now) st = Inr (addField now st)"
| "handle (Edit_value i val) st = updateField i Key_value val st"
| "handle (Click_rename i answer) st = updateLabel i answer st"
| "handle (Pick_type i target_value) st = Inr (updateType target_value i st)"
| "handle (Click_remove i) st = Inr (removeField i st)"
| "handle Click_save st = saveForm st"

text \<open>
  The events a rendered state offers. The selector of the draft type lists the keys of the
  registry; the type selector of a field lists an option with the empty value before
  them. The per-field controls exist for the fields in the list.
\<close>

fun offered :: "App \<Rightarrow> event \<Rightarrow> bool" where
  "offered st (Type_new_label v) = True"
| "offered st (Pick_new_type t) = registered t"
| "offered st (Click_add now) = True"
| "offered st (Edit_value i val) = (i \<in> set (map id' (fields' st)))"
| "offered st (Click_rename i answer) = (i \<in> set (map id' (fields' st)))"
| "offered st (Pick_type i target_value) =
     (i \<in> set (map id' (fields' st)) \<and> (target_value = [] \<or> registered target_value))"
| "offered st (Click_remove i) = (i \<in> set (map id' (fields' st)))"
| "offered st Click_save = True"

text \<open>
  Rendering the list: each row reads \<open>fieldTypes[field.type].render\<close>, which throws on a
  tag the registry does not hold. Of the markup only the row keys (\<open>key={field.id}\<close>) are
  kept.
\<close>

definition render_rows :: "App \<Rightarrow> js_exception + int list" where
  "render_rows st =
     map_throwing (\<lambda>field. case fieldTypes (type' field) of
                              None \<Rightarrow> Inl TypeError
                            | Some cfg \<Rightarrow> Inr (id' field))
       (fields' st)"

text \<open>Handling a sequence of events, one after the other. A state whose rendering throws
  offers no control; an event that is not offered, or a handler that throws, ends the
  session (\<open>None\<close>).\<close>

fun session :: "event list \<Rightarrow> App \<Rightarrow> App option" where
  "session [] st = Some st"
| "session (e # es) st =
     (case render_rows st of
        Inl x \<Rightarrow> None
      | Inr rows \<Rightarrow>
          if offered st e
          then (case handle e st of Inl x \<Rightarrow> None | Inr st' \<Rightarrow> session es st')
          else None)"

text \<open>Every \<open>Date.now()\<close> read by an add differs from the identifiers in the list then.\<close>

fun clock_fresh :: "event list \<Rightarrow> App \<Rightarrow> bool" where
  "clock_fresh [] st = True"
| "clock_fresh (e # es) st =
     ((case e of Click_add now \<Rightarrow> now \<notin> set (map id' (fields' st)) | _ \<Rightarrow> True) \<and>
      (case handle e st of Inl x \<Rightarrow> True | Inr st' \<Rightarrow> clock_fresh es st'))"

section \<open>Properties\<close>

subsection \<open>The registry and the strings\<close>

lemma registered_cases: "registered t \<longleftrightarrow> t = js ''text'' \<or> t = js ''number'' \<or> t = js ''select''"
  by (auto simp: registered_def fieldTypes_entries_def)

lemma registered_iff: "registered t \<longleftrightarrow> fieldTypes t \<noteq> None"
  by (simp add: registered_def fieldTypes_def map_of_eq_None_iff)
  

lemma msg_required_nonempty: "msg_required \<noteq> []" by (simp add: msg_required_def)
lemma msg_not_a_number_nonempty: "msg_not_a_number \<noteq> []" by (simp add: msg_not_a_number_def)

lemma validate_truthy: "fieldTypes t = Some cfg \<Longrightarrow> truthy_opt (validate cfg v) \<longleftrightarrow> validate cfg v \<noteq> None"
  by (auto simp: fieldTypes_def fieldTypes_entries_def truthy_opt_def truthy_def validate_text_def validate_number_def validate_select_def msg_required_nonempty msg_not_a_number_nonempty split: if_splits option.splits)

lemma js_trim_Nil: "js_trim s = [] \<longleftrightarrow> (\<forall>c\<in>set s. is_js_whitespace c)"
proof
  assume "js_trim s = []"
  then have a: "\<forall>c\<in>set (dropWhile is_js_whitespace s). is_js_whitespace c"
    by (simp add: js_trim_def)
  have "dropWhile is_js_whitespace s = []"
  proof (rule ccontr)
    assume n: "dropWhile is_js_whitespace s \<noteq> []"
    then have "\<not> is_js_whitespace (hd (dropWhile is_js_whitespace s))"
      by (rule hd_dropWhile)
    moreover have "hd (dropWhile is_js_whitespace s) \<in> set (dropWhile is_js_whitespace s)"
      using n by simp
    ultimately show False using a by blast
  qed
  then show "\<forall>c\<in>set s. is_js_whitespace c" by simp
next
  assume "\<forall>c\<in>set s. is_js_whitespace c"
  then have "dropWhile is_js_whitespace s = []" by simp
  then show "js_trim s = []" by (simp only: js_trim_def rev.simps dropWhile.simps)
qed

lemma msgs_differ: "msg_required \<noteq> msg_not_a_number"
  by (simp add: msg_required_def msg_not_a_number_def)

subsection \<open>Adding a field\<close>

text \<open>
  C4: when the draft label is empty or consists of whitespace only, \<open>addField\<close> shows the
  missing-label alert and changes nothing else: no record is created, the list and its
  length are as before, whatever the draft type is.
\<close>

theorem addField_blank_label:
  assumes "newFieldLabel st = L" and "newFieldType st = T"
    and "\<forall>c\<in>set L. is_js_whitespace c"
  shows "addField now st = st\<lparr>alerts := alerts st @ [msg_enter_label]\<rparr>
       \<and> fields' (addField now st) = fields' st
       \<and> length (fields' (addField now st)) = length (fields' st)
       \<and> alerts (addField now st) = alerts st @ [msg_enter_label]"
proof -
  have "js_trim (newFieldLabel st) = []"
    using assms(1,3) by (simp add: js_trim_Nil)
  then show ?thesis
    by (simp add: addField_def addField_effects_def truthy_def)
qed

theorem addField_blank_label_witness:
  "addField 7 (init\<lparr>newFieldLabel := js ''  ''\<rparr>)
     = init\<lparr>newFieldLabel := js ''  '', alerts := [msg_enter_label]\<rparr>
   \<and> fields' (addField 7 (init\<lparr>newFieldLabel := js ''  ''\<rparr>)) = []"
proof -
  have ws: "\<forall>c\<in>set (js ''  ''). is_js_whitespace c"
    by (simp add: js_def is_js_whitespace_def)
  show ?thesis
    using addField_blank_label [of "init\<lparr>newFieldLabel := js ''  ''\<rparr>" "js ''  ''" "js ''text''" 7, OF _ _ ws]
    by (simp add: init_def)
qed

text \<open>
  C5: when the draft label \<open>L\<close> is non-empty after trimming, \<open>addField\<close> appends one record
  at the end of the list, with the label \<open>L\<close>, the draft type \<open>T\<close>, the empty value and no
  error; the records before it are untouched, the draft label is cleared and the draft
  type is kept. (This holds for every draft type, registered or not.)
\<close>

theorem addField_appends:
  assumes "newFieldLabel st = L" and "newFieldType st = T" and "js_trim L \<noteq> []"
  shows "addField now st =
           st\<lparr>fields' := fields' st @
                 [\<lparr>id' = now, label = L, type' = T, value' = [], error = None\<rparr>],
              newFieldLabel := []\<rparr>
       \<and> length (fields' (addField now st)) = length (fields' st) + 1
       \<and> take (length (fields' st)) (fields' (addField now st)) = fields' st
       \<and> last (fields' (addField now st)) =
            \<lparr>id' = now, label = L, type' = T, value' = [], error = None\<rparr>
       \<and> newFieldLabel (addField now st) = []
       \<and> newFieldType (addField now st) = T
       \<and> message (addField now st) = message st
       \<and> alerts (addField now st) = alerts st"
  using assms by (simp add: addField_def addField_effects_def truthy_def)

theorem addField_appends_witness:
  "js_trim (js '' Age'') \<noteq> []
   \<and> addField 7 (init\<lparr>newFieldLabel := js '' Age'', newFieldType := js ''number''\<rparr>) =
       init\<lparr>fields' := [\<lparr>id' = 7, label = js '' Age'', type' = js ''number'', value' = [],
                          error = None\<rparr>],
            newFieldLabel := [], newFieldType := js ''number''\<rparr>"
proof -
  have ne: "js_trim (js '' Age'') \<noteq> []"
    by (simp add: js_trim_Nil js_def is_js_whitespace_def)
  show ?thesis
    using ne addField_appends [of "init\<lparr>newFieldLabel := js '' Age'', newFieldType := js ''number''\<rparr>"
        "js '' Age''" "js ''number''" 7, OF _ _ ne]
    by (simp add: init_def)
qed

subsection \<open>The validator of the number type\<close>

text \<open>
  C7: the validator registered for \<open>number\<close> answers the required-field text exactly on the
  empty string, the must-be-a-number text exactly on a non-empty string that \<open>Number\<close>
  turns into NaN, and null exactly on the other strings; \<open>abc\<close> gets the must-be-a-number
  text and \<open>42\<close> gets null.
\<close>

theorem validate_number_spec:
  "map_option validate (fieldTypes (js ''number'')) = Some validate_number
   \<and> (validate_number v = Some msg_required \<longleftrightarrow> v = [])
   \<and> (validate_number v = Some msg_not_a_number \<longleftrightarrow> v \<noteq> [] \<and> isNaN_Number v)
   \<and> (validate_number v = None \<longleftrightarrow> v \<noteq> [] \<and> \<not> isNaN_Number v)
   \<and> validate_number (js ''abc'') = Some msg_not_a_number
   \<and> validate_number (js ''42'') = None"
proof -
  have a: "map_option validate (fieldTypes (js ''number'')) = Some validate_number"
    by (simp add: fieldTypes_def fieldTypes_entries_def js_def)
  have b: "validate_number (js ''abc'') = Some msg_not_a_number" by code_simp
  have c: "validate_number (js ''42'') = None" by code_simp
  have d: "(validate_number v = Some msg_required \<longleftrightarrow> v = [])
   \<and> (validate_number v = Some msg_not_a_number \<longleftrightarrow> v \<noteq> [] \<and> isNaN_Number v)
   \<and> (validate_number v = None \<longleftrightarrow> v \<noteq> [] \<and> \<not> isNaN_Number v)"
    using msgs_differ by (auto simp: validate_number_def truthy_def)
  from a b c d show ?thesis by blast
qed

subsection \<open>Editing a field\<close>

lemma map_throwing_no_match:
  "\<forall>x\<in>set xs. \<not> P x \<Longrightarrow> map_throwing (\<lambda>x. if P x then g x else Inr x) xs = Inr xs"
  by (induction xs) auto

lemma map_throwing_total:
  "map_throwing (\<lambda>x. Inr (g x)) xs = Inr (map g xs)"
  by (induction xs) auto

lemma updateField_absent:
  "i \<notin> set (map id' (fields' st)) \<Longrightarrow> updateField i key v st = Inr st"
proof -
  assume "i \<notin> set (map id' (fields' st))"
  then have "\<forall>f\<in>set (fields' st). \<not> id' f = i" by auto
  then have "map_throwing (\<lambda>field. if id' field = i then update_record key v field else Inr field)
             (fields' st) = Inr (fields' st)"
    by (rule map_throwing_no_match)
  then show ?thesis
    by (simp add: updateField_def updateField_effects_def run_def)
qed

lemma updateField_label:
  "updateField i Key_label v st =
     Inr (st\<lparr>fields' := map (\<lambda>f. if id' f = i then f\<lparr>label := v\<rparr> else f) (fields' st)\<rparr>)"
proof -
  have "(\<lambda>field. if id' field = i then update_record Key_label v field else Inr field)
        = (\<lambda>field. Inr (if id' field = i then field\<lparr>label := v\<rparr> else field))"
    by (auto simp: update_record_def)
  then show ?thesis
    by (simp add: updateField_def updateField_effects_def run_def map_throwing_total)
qed

lemma map_throwing_value:
  "\<forall>f\<in>set fs. id' f = i \<longrightarrow> registered (type' f) \<Longrightarrow>
   \<exists>us. map_throwing (\<lambda>field. if id' field = i then update_record Key_value v field else Inr field) fs
           = Inr us
      \<and> list_all2 (\<lambda>f u. if id' f = i
                          then \<exists>cfg. fieldTypes (type' f) = Some cfg
                                 \<and> u = f\<lparr>value' := v, error := validate cfg v\<rparr>
                          else u = f) fs us"
proof (induction fs)
  case Nil
  then show ?case by simp
next
  case (Cons f fs)
  then obtain us where us: "map_throwing (\<lambda>field. if id' field = i then update_record Key_value v field else Inr field) fs
           = Inr us" "list_all2 (\<lambda>f u. if id' f = i
                          then \<exists>cfg. fieldTypes (type' f) = Some cfg
                                 \<and> u = f\<lparr>value' := v, error := validate cfg v\<rparr>
                          else u = f) fs us"
    by auto
  show ?case
  proof (cases "id' f = i")
    case True
    with Cons.prems obtain cfg where "fieldTypes (type' f) = Some cfg"
      by (auto simp: registered_iff)
    with True us show ?thesis by (simp add: update_record_def)
  next
    case False
    with us show ?thesis by simp
  qed
qed

text \<open>
  C6: \<open>updateField\<close> with an identifier that no record has returns the state as it is,
  for every key. With the key \<open>value\<close>, and the types of the records addressed being
  registered, every record with that identifier gets the new value and the error its own
  type's validator gives for it, and every other record stays as it is. With the key
  \<open>label\<close>, every record with that identifier gets the new label and nothing else of it
  changes, its error included; the other records stay as they are. Nothing but the list
  changes in the state.
\<close>

theorem updateField_spec:
  "(i \<notin> set (map id' (fields' st)) \<longrightarrow> updateField i key v st = Inr st)
   \<and> ((\<forall>f\<in>set (fields' st). id' f = i \<longrightarrow> registered (type' f)) \<longrightarrow>
        (\<exists>us. updateField i Key_value v st = Inr (st\<lparr>fields' := us\<rparr>)
           \<and> length us = length (fields' st)
           \<and> (\<forall>j<length us.
                 if id' (fields' st ! j) = i
                 then \<exists>cfg. fieldTypes (type' (fields' st ! j)) = Some cfg
                        \<and> us ! j = (fields' st ! j)\<lparr>value' := v, error := validate cfg v\<rparr>
                 else us ! j = fields' st ! j)))
   \<and> (\<exists>us. updateField i Key_label v st = Inr (st\<lparr>fields' := us\<rparr>)
         \<and> length us = length (fields' st)
         \<and> (\<forall>j<length us.
               if id' (fields' st ! j) = i
               then us ! j = (fields' st ! j)\<lparr>label := v\<rparr>
               else us ! j = fields' st ! j))"
proof (intro conjI impI)
  assume "i \<notin> set (map id' (fields' st))"
  then show "updateField i key v st = Inr st" by (rule updateField_absent)
next
  assume "\<forall>f\<in>set (fields' st). id' f = i \<longrightarrow> registered (type' f)"
  from map_throwing_value [OF this, of v] obtain us where
    us: "map_throwing (\<lambda>field. if id' field = i then update_record Key_value v field else Inr field)
           (fields' st) = Inr us"
    and rel: "list_all2 (\<lambda>f u. if id' f = i
                          then \<exists>cfg. fieldTypes (type' f) = Some cfg
                                 \<and> u = f\<lparr>value' := v, error := validate cfg v\<rparr>
                          else u = f) (fields' st) us"
    by blast
  have "updateField i Key_value v st = Inr (st\<lparr>fields' := us\<rparr>)"
    using us by (simp add: updateField_def updateField_effects_def run_def)
  moreover have "length us = length (fields' st)"
    using rel by (simp add: list_all2_lengthD)
  moreover have "\<forall>j<length us.
                 if id' (fields' st ! j) = i
                 then \<exists>cfg. fieldTypes (type' (fields' st ! j)) = Some cfg
                        \<and> us ! j = (fields' st ! j)\<lparr>value' := v, error := validate cfg v\<rparr>
                 else us ! j = fields' st ! j"
    using rel by (simp add: list_all2_conv_all_nth)
  ultimately show "\<exists>us. updateField i Key_value v st = Inr (st\<lparr>fields' := us\<rparr>)
           \<and> length us = length (fields' st)
           \<and> (\<forall>j<length us.
                 if id' (fields' st ! j) = i
                 then \<exists>cfg. fieldTypes (type' (fields' st ! j)) = Some cfg
                        \<and> us ! j = (fields' st ! j)\<lparr>value' := v, error := validate cfg v\<rparr>
                 else us ! j = fields' st ! j)"
    by blast
next
  show "\<exists>us. updateField i Key_label v st = Inr (st\<lparr>fields' := us\<rparr>)
         \<and> length us = length (fields' st)
         \<and> (\<forall>j<length us.
               if id' (fields' st ! j) = i
               then us ! j = (fields' st ! j)\<lparr>label := v\<rparr>
               else us ! j = fields' st ! j)"
    by (rule exI [of _ "map (\<lambda>f. if id' f = i then f\<lparr>label := v\<rparr> else f) (fields' st)"])
       (simp add: updateField_label)
qed

theorem updateField_spec_witness:
  "9 \<notin> set (map id' (fields' (addField 7 (init\<lparr>newFieldLabel := js ''Age''\<rparr>))))
   \<and> updateField 9 Key_value (js ''x'') (addField 7 (init\<lparr>newFieldLabel := js ''Age''\<rparr>))
       = Inr (addField 7 (init\<lparr>newFieldLabel := js ''Age''\<rparr>))
   \<and> registered (js ''text'')
   \<and> (\<exists>us. updateField 7 Key_value (js ''x'') (addField 7 (init\<lparr>newFieldLabel := js ''Age''\<rparr>))
             = Inr ((addField 7 (init\<lparr>newFieldLabel := js ''Age''\<rparr>))\<lparr>fields' := us\<rparr>)
          \<and> length us = 1)"
proof -
  let ?s = "addField 7 (init\<lparr>newFieldLabel := js ''Age''\<rparr>)"
  have ne: "js_trim (js ''Age'') \<noteq> []"
    by (simp add: js_trim_Nil js_def is_js_whitespace_def)
  have fs: "fields' ?s = [\<lparr>id' = 7, label = js ''Age'', type' = js ''text'', value' = [],
                           error = None\<rparr>]"
    using ne by (simp add: addField_def addField_effects_def truthy_def init_def)
  have a: "9 \<notin> set (map id' (fields' ?s))" by (simp add: fs)
  have b: "\<forall>f\<in>set (fields' ?s). id' f = 7 \<longrightarrow> registered (type' f)"
    by (simp add: fs registered_cases)
  from updateField_spec [of 9 ?s Key_value "js ''x''"] a
  have c: "updateField 9 Key_value (js ''x'') ?s = Inr ?s" by blast
  from updateField_spec [of 7 ?s Key_value "js ''x''"] b
  have d: "\<exists>us. updateField 7 Key_value (js ''x'') ?s = Inr (?s\<lparr>fields' := us\<rparr>)
             \<and> length us = 1"
    by (auto simp: fs)
  have r: "registered (js ''text'')" by (simp add: registered_cases)
  from a r c d show ?thesis by blast
qed

subsection \<open>Removing a field\<close>

lemma removeField_eq:
  "removeField i st = st\<lparr>fields' := filter (\<lambda>field. id' field \<noteq> i) (fields' st)\<rparr>"
  by (simp add: removeField_def removeField_effects_def)

lemma removeField_absent:
  "i \<notin> set (map id' (fields' st)) \<Longrightarrow> removeField i st = st"
proof -
  assume "i \<notin> set (map id' (fields' st))"
  then have "filter (\<lambda>field. id' field \<noteq> i) (fields' st) = fields' st"
    by (auto simp: filter_id_conv)
  then show ?thesis by (simp add: removeField_eq)
qed

lemma removeField_ids: "i \<notin> set (map id' (fields' (removeField i st)))"
  by (auto simp: removeField_eq)

text \<open>
  C9: \<open>removeField\<close> keeps, in their order, exactly the records whose identifier differs
  from the one given and touches nothing else in the state; where one record carries the
  identifier, the list is the old one without it. With an identifier that no record has
  the state is returned as it is. After a removal, removing the same identifier again or
  editing it (under any key) returns the state as it is, and the edit does not throw.
\<close>

theorem removeField_spec:
  "fields' (removeField i st) = filter (\<lambda>f. id' f \<noteq> i) (fields' st)
   \<and> removeField i st = st\<lparr>fields' := fields' (removeField i st)\<rparr>
   \<and> (fields' st = xs @ f # ys \<and> id' f = i \<and> i \<notin> set (map id' xs) \<and> i \<notin> set (map id' ys)
        \<longrightarrow> fields' (removeField i st) = xs @ ys)
   \<and> (i \<notin> set (map id' (fields' st)) \<longrightarrow> removeField i st = st)
   \<and> removeField i (removeField i st) = removeField i st
   \<and> updateField i key v (removeField i st) = Inr (removeField i st)"
proof (intro conjI impI)
  show "fields' (removeField i st) = filter (\<lambda>f. id' f \<noteq> i) (fields' st)"
    by (simp add: removeField_eq)
  show "removeField i st = st\<lparr>fields' := fields' (removeField i st)\<rparr>"
    by (simp add: removeField_eq)
  show "removeField i (removeField i st) = removeField i st"
    using removeField_ids by (rule removeField_absent)
  show "updateField i key v (removeField i st) = Inr (removeField i st)"
    using removeField_ids by (rule updateField_absent)
next
  assume "i \<notin> set (map id' (fields' st))"
  then show "removeField i st = st" by (rule removeField_absent)
next
  assume a: "fields' st = xs @ f # ys \<and> id' f = i \<and> i \<notin> set (map id' xs) \<and> i \<notin> set (map id' ys)"
  then have "\<forall>x\<in>set xs. id' x \<noteq> i" "\<forall>y\<in>set ys. id' y \<noteq> i"
    by (metis image_eqI set_map)+
  then have "filter (\<lambda>f. id' f \<noteq> i) xs = xs" "filter (\<lambda>f. id' f \<noteq> i) ys = ys"
    by (simp_all add: filter_id_conv)
  with a show "fields' (removeField i st) = xs @ ys"
    by (simp add: removeField_eq)
qed

theorem removeField_spec_witness:
  "fields' (removeField 7 (init\<lparr>fields' := [\<lparr>id' = 7, label = js ''Age'', type' = js ''number'',
                                              value' = js ''abc'', error = None\<rparr>]\<rparr>)) = []
   \<and> removeField 9 (init\<lparr>fields' := [\<lparr>id' = 7, label = js ''Age'', type' = js ''number'',
                                       value' = js ''abc'', error = None\<rparr>]\<rparr>)
       = init\<lparr>fields' := [\<lparr>id' = 7, label = js ''Age'', type' = js ''number'',
                             value' = js ''abc'', error = None\<rparr>]\<rparr>"
proof -
  let ?f = "\<lparr>id' = 7, label = js ''Age'', type' = js ''number'', value' = js ''abc'',
             error = None\<rparr>"
  let ?S = "init\<lparr>fields' := [?f]\<rparr>"
  have a: "fields' ?S = [] @ ?f # [] \<and> id' ?f = 7 \<and> 7 \<notin> set (map id' []) \<and> 7 \<notin> set (map id' [])"
    by simp
  have b: "9 \<notin> set (map id' (fields' ?S))" by simp
  from removeField_spec [where i = 7 and st = ?S and xs = "[]" and f = ?f and ys = "[]"] a
  have "fields' (removeField 7 ?S) = [] @ []" by blast
  moreover from removeField_spec [where i = 9 and st = ?S] b
  have "removeField 9 ?S = ?S" by blast
  ultimately show ?thesis by simp
qed

subsection \<open>Saving\<close>

text \<open>
  The save button, like every control, exists only while the component renders, and the
  component renders exactly when every type tag in the list is registered. The statements
  on \<open>saveForm\<close> below are about these states.
\<close>

lemma map_throwing_Inr_iff:
  "(\<exists>ys. map_throwing g xs = Inr ys) \<longleftrightarrow> (\<forall>x\<in>set xs. \<exists>y. g x = Inr y)"
proof (induction xs)
  case Nil
  then show ?case by simp
next
  case (Cons x xs)
  then show ?case by (auto split: sum.splits)
qed

lemma render_rows_iff_registered:
  "(\<exists>rows. render_rows st = Inr rows) \<longleftrightarrow> (\<forall>f\<in>set (fields' st). registered (type' f))"
  unfolding render_rows_def map_throwing_Inr_iff
  by (auto simp: registered_iff split: option.splits)

lemma save_loop_registered:
  "\<forall>f\<in>set fs. registered (type' f) \<Longrightarrow>
   \<exists>us. save_loop fs h = Inr (us, h \<or> (\<exists>u\<in>set us. error u \<noteq> None))
      \<and> list_all2 (\<lambda>f u. \<exists>cfg. fieldTypes (type' f) = Some cfg
                            \<and> u = f\<lparr>error := validate cfg (value' f)\<rparr>) fs us"
proof (induction fs arbitrary: h)
  case Nil
  then show ?case by simp
next
  case (Cons f fs)
  from Cons.prems obtain cfg where cfg: "fieldTypes (type' f) = Some cfg"
    by (auto simp: registered_iff)
  let ?err = "validate cfg (value' f)"
  let ?h = "if truthy_opt ?err then True else h"
  from Cons.prems have "\<forall>f\<in>set fs. registered (type' f)" by simp
  from Cons.IH [OF this, of ?h] obtain us where
    us: "save_loop fs ?h = Inr (us, ?h \<or> (\<exists>u\<in>set us. error u \<noteq> None))"
    and rel: "list_all2 (\<lambda>f u. \<exists>cfg. fieldTypes (type' f) = Some cfg
                            \<and> u = f\<lparr>error := validate cfg (value' f)\<rparr>) fs us"
    by blast
  have t: "truthy_opt ?err \<longleftrightarrow> ?err \<noteq> None"
    using cfg by (rule validate_truthy)
  have "save_loop (f # fs) h =
          Inr (f\<lparr>error := ?err\<rparr> # us, h \<or> (\<exists>u\<in>set (f\<lparr>error := ?err\<rparr> # us). error u \<noteq> None))"
    using cfg us t by (auto simp: Let_def)
  moreover have "list_all2 (\<lambda>f u. \<exists>cfg. fieldTypes (type' f) = Some cfg
                            \<and> u = f\<lparr>error := validate cfg (value' f)\<rparr>) (f # fs) (f\<lparr>error := ?err\<rparr> # us)"
    using cfg rel by simp
  ultimately show ?case by blast
qed

lemma msg_form_differ: "msg_form_invalid \<noteq> msg_form_ok"
  by (simp add: msg_form_invalid_def msg_form_ok_def)

text \<open>
  C2: on every list whose type tags are all registered (the \<open>FieldType\<close> of the source;
  the states in which the button can be clicked), \<open>saveForm\<close> returns, every record carries as its error what the validator of its type
  gives for its current value, and the message is the invalid-form text exactly when one
  of the recomputed errors is not null and the success text exactly when none is; the empty
  list gets the success text.
\<close>

theorem saveForm_revalidates:
  assumes "\<forall>f\<in>set (fields' st). registered (type' f)"
  shows "\<exists>st'. saveForm st = Inr st'
           \<and> length (fields' st') = length (fields' st)
           \<and> (\<forall>j<length (fields' st).
                 \<exists>cfg. fieldTypes (type' (fields' st ! j)) = Some cfg
                   \<and> error (fields' st' ! j) = validate cfg (value' (fields' st ! j)))
           \<and> (message st' = msg_form_invalid \<longleftrightarrow> (\<exists>u\<in>set (fields' st'). error u \<noteq> None))
           \<and> (message st' = msg_form_ok \<longleftrightarrow> \<not> (\<exists>u\<in>set (fields' st'). error u \<noteq> None))
           \<and> (fields' st = [] \<longrightarrow> message st' = msg_form_ok)"
proof -
  from save_loop_registered [OF assms, of False] obtain us where
    us: "save_loop (fields' st) False = Inr (us, \<exists>u\<in>set us. error u \<noteq> None)"
    and rel: "list_all2 (\<lambda>f u. \<exists>cfg. fieldTypes (type' f) = Some cfg
                            \<and> u = f\<lparr>error := validate cfg (value' f)\<rparr>) (fields' st) us"
    by auto
  let ?m = "if \<exists>u\<in>set us. error u \<noteq> None then msg_form_invalid else msg_form_ok"
  let ?st = "st\<lparr>fields' := us, message := ?m\<rparr>"
  have s: "saveForm st = Inr ?st"
    using us by (simp add: saveForm_def saveForm_effects_def run_def)
  have len: "length us = length (fields' st)"
    using rel by (simp add: list_all2_lengthD)
  have pt: "\<forall>j<length (fields' st).
                 \<exists>cfg. fieldTypes (type' (fields' st ! j)) = Some cfg
                   \<and> error (us ! j) = validate cfg (value' (fields' st ! j))"
  proof (intro allI impI)
    fix j assume "j < length (fields' st)"
    with rel obtain cfg where "fieldTypes (type' (fields' st ! j)) = Some cfg"
      "us ! j = (fields' st ! j)\<lparr>error := validate cfg (value' (fields' st ! j))\<rparr>"
      by (auto simp: list_all2_conv_all_nth)
    then show "\<exists>cfg. fieldTypes (type' (fields' st ! j)) = Some cfg
                   \<and> error (us ! j) = validate cfg (value' (fields' st ! j))"
      by simp
  qed
  have m1: "message ?st = msg_form_invalid \<longleftrightarrow> (\<exists>u\<in>set (fields' ?st). error u \<noteq> None)"
    using msg_form_differ by simp
  have m2: "message ?st = msg_form_ok \<longleftrightarrow> \<not> (\<exists>u\<in>set (fields' ?st). error u \<noteq> None)"
    using msg_form_differ by auto
  have m3: "fields' st = [] \<longrightarrow> message ?st = msg_form_ok"
    using len by auto
  have l2: "length (fields' ?st) = length (fields' st)" using len by simp
  have pt2: "\<forall>j<length (fields' st).
                 \<exists>cfg. fieldTypes (type' (fields' st ! j)) = Some cfg
                   \<and> error (fields' ?st ! j) = validate cfg (value' (fields' st ! j))"
    using pt by simp
  show ?thesis
    using s l2 pt2 m1 m2 m3 by blast
qed

theorem saveForm_revalidates_witness:
  "registered (js ''number'')
   \<and> (\<exists>st'. saveForm (init\<lparr>fields' := [\<lparr>id' = 7, label = js ''Age'', type' = js ''number'',
                                          value' = js ''abc'', error = None\<rparr>]\<rparr>) = Inr st'
          \<and> length (fields' st') = 1
          \<and> (message st' = msg_form_invalid \<longleftrightarrow> (\<exists>u\<in>set (fields' st'). error u \<noteq> None)))"
proof -
  let ?S = "init\<lparr>fields' := [\<lparr>id' = 7, label = js ''Age'', type' = js ''number'',
                               value' = js ''abc'', error = None\<rparr>]\<rparr>"
  have h: "\<forall>f\<in>set (fields' ?S). registered (type' f)"
    by (simp add: registered_cases)
  have r: "registered (js ''number'')" by (simp add: registered_cases)
  have l: "length (fields' ?S) = 1" by simp
  from saveForm_revalidates [OF h] l r show ?thesis by metis
qed

text \<open>
  C8: on a list whose type tags are all registered, \<open>saveForm\<close> keeps the length and the
  order of the list and the identifier, label, type and value of every record; the draft
  label, the draft type and the alerts are untouched. The list is replaced by one
  \<open>setFields\<close> holding the complete result: every state passed through while the effects
  are applied has either the old list or the fully revalidated one.
\<close>

theorem saveForm_frame:
  assumes "\<forall>f\<in>set (fields' st). registered (type' f)"
  shows "\<exists>st' ws. saveForm_effects st = Inr ws \<and> saveForm st = Inr st'
           \<and> length (fields' st') = length (fields' st)
           \<and> (\<forall>j<length (fields' st).
                 id' (fields' st' ! j) = id' (fields' st ! j)
               \<and> label (fields' st' ! j) = label (fields' st ! j)
               \<and> type' (fields' st' ! j) = type' (fields' st ! j)
               \<and> value' (fields' st' ! j) = value' (fields' st ! j))
           \<and> newFieldLabel st' = newFieldLabel st
           \<and> newFieldType st' = newFieldType st
           \<and> alerts st' = alerts st
           \<and> last (states_through st ws) = st'
           \<and> (\<forall>s\<in>set (states_through st ws). fields' s = fields' st \<or> fields' s = fields' st')"
proof -
  from save_loop_registered [OF assms, of False] obtain us where
    us: "save_loop (fields' st) False = Inr (us, \<exists>u\<in>set us. error u \<noteq> None)"
    and rel: "list_all2 (\<lambda>f u. \<exists>cfg. fieldTypes (type' f) = Some cfg
                            \<and> u = f\<lparr>error := validate cfg (value' f)\<rparr>) (fields' st) us"
    by auto
  let ?m = "if \<exists>u\<in>set us. error u \<noteq> None then msg_form_invalid else msg_form_ok"
  let ?ws = "[SetFields us, SetMessage ?m]"
  let ?st = "st\<lparr>fields' := us, message := ?m\<rparr>"
  have w: "saveForm_effects st = Inr ?ws"
    using us by (simp add: saveForm_effects_def)
  have s: "saveForm st = Inr ?st"
    using w by (simp add: saveForm_def run_def)
  have len: "length (fields' ?st) = length (fields' st)"
    using rel by (simp add: list_all2_lengthD)
  have pt: "\<forall>j<length (fields' st).
                 id' (fields' ?st ! j) = id' (fields' st ! j)
               \<and> label (fields' ?st ! j) = label (fields' st ! j)
               \<and> type' (fields' ?st ! j) = type' (fields' st ! j)
               \<and> value' (fields' ?st ! j) = value' (fields' st ! j)"
  proof (intro allI impI)
    fix j assume "j < length (fields' st)"
    with rel obtain cfg where
      "us ! j = (fields' st ! j)\<lparr>error := validate cfg (value' (fields' st ! j))\<rparr>"
      by (auto simp: list_all2_conv_all_nth)
    then show "id' (fields' ?st ! j) = id' (fields' st ! j)
               \<and> label (fields' ?st ! j) = label (fields' st ! j)
               \<and> type' (fields' ?st ! j) = type' (fields' st ! j)
               \<and> value' (fields' ?st ! j) = value' (fields' st ! j)"
      by simp
  qed
  have fr: "newFieldLabel ?st = newFieldLabel st" "newFieldType ?st = newFieldType st"
    "alerts ?st = alerts st" by simp_all
  have la: "last (states_through st ?ws) = ?st" by simp
  have at: "\<forall>s\<in>set (states_through st ?ws). fields' s = fields' st \<or> fields' s = fields' ?st"
    by simp
  show ?thesis
    using w s len pt fr la at by blast
qed

theorem saveForm_frame_witness:
  "registered (js ''number'')
   \<and> (\<exists>st'. saveForm (init\<lparr>fields' := [\<lparr>id' = 7, label = js ''Age'', type' = js ''number'',
                                          value' = js ''abc'', error = None\<rparr>]\<rparr>) = Inr st'
          \<and> length (fields' st') = 1
          \<and> value' (fields' st' ! 0) = js ''abc''
          \<and> newFieldType st' = js ''text'')"
proof -
  let ?S = "init\<lparr>fields' := [\<lparr>id' = 7, label = js ''Age'', type' = js ''number'',
                               value' = js ''abc'', error = None\<rparr>]\<rparr>"
  have h: "\<forall>f\<in>set (fields' ?S). registered (type' f)"
    by (simp add: registered_cases)
  from saveForm_frame [OF h] obtain st' where
    s: "saveForm ?S = Inr st'" and len: "length (fields' st') = length (fields' ?S)"
    and pt: "\<forall>j<length (fields' ?S). value' (fields' st' ! j) = value' (fields' ?S ! j)"
    and t: "newFieldType st' = newFieldType ?S"
    by blast
  from len have "length (fields' st') = 1" by simp
  moreover from pt have "value' (fields' st' ! 0) = js ''abc''" by simp
  moreover from t have "newFieldType st' = js ''text''" by (simp add: init_def)
  moreover have "registered (js ''number'')" by (simp add: registered_cases)
  ultimately show ?thesis using s by blast
qed

subsection \<open>Changing the type of a field\<close>

lemma updateType_error_unchanged:
  "map error (fields' (updateType t i st)) = map error (fields' st)"
  by (simp add: updateType_def updateType_effects_def)

text \<open>
  C1: \<open>updateType\<close> replaces the type and empties the value, and leaves the error of the
  record as it was. A field is added, the form is saved, which marks the empty field as
  required, and the type of the field is changed to \<open>number\<close>: the record ends with the
  new type, the empty value and the required-field error still on it, not with null.
\<close>

theorem updateType_keeps_stale_error:
  "session [Type_new_label (js ''a''), Click_add 1, Click_save, Pick_type 1 (js ''number'')] init
     = Some \<lparr>fields' = [\<lparr>id' = 1, label = js ''a'', type' = js ''number'', value' = [],
                           error = Some msg_required\<rparr>],
             newFieldLabel = [], newFieldType = js ''text'', message = msg_form_invalid,
             alerts = []\<rparr>"
  by code_simp

text \<open>
  C3: the type selector of a field offers an option with the empty value, and
  \<open>updateType\<close> stores what it is given. A field is added and that option picked: the
  record ends with the tag \<open>""\<close>, which the registry does not hold, and on that state
  rendering the rows, saving, and editing the value of the field each throw.
\<close>

theorem updateType_sets_unregistered_tag:
  "session [Type_new_label (js ''a''), Click_add 1, Pick_type 1 []] init
     = Some \<lparr>fields' = [\<lparr>id' = 1, label = js ''a'', type' = [], value' = [], error = None\<rparr>],
             newFieldLabel = [], newFieldType = js ''text'', message = [], alerts = []\<rparr>
   \<and> \<not> registered []
   \<and> render_rows \<lparr>fields' = [\<lparr>id' = 1, label = js ''a'', type' = [], value' = [], error = None\<rparr>],
             newFieldLabel = [], newFieldType = js ''text'', message = [], alerts = []\<rparr>
       = Inl TypeError
   \<and> saveForm \<lparr>fields' = [\<lparr>id' = 1, label = js ''a'', type' = [], value' = [], error = None\<rparr>],
             newFieldLabel = [], newFieldType = js ''text'', message = [], alerts = []\<rparr>
       = Inl TypeError
   \<and> updateField 1 Key_value (js ''x'')
        \<lparr>fields' = [\<lparr>id' = 1, label = js ''a'', type' = [], value' = [], error = None\<rparr>],
             newFieldLabel = [], newFieldType = js ''text'', message = [], alerts = []\<rparr>
       = Inl TypeError"
  by code_simp

subsection \<open>Identifiers\<close>

text \<open>
  C10, as stated, fails: two adds that read the same \<open>Date.now()\<close> leave two records with
  the same identifier in the list.
\<close>

theorem duplicate_ids_reachable:
  "session [Type_new_label (js ''a''), Click_add 5, Type_new_label (js ''b''), Click_add 5] init
     = Some \<lparr>fields' = [\<lparr>id' = 5, label = js ''a'', type' = js ''text'', value' = [], error = None\<rparr>,
                          \<lparr>id' = 5, label = js ''b'', type' = js ''text'', value' = [], error = None\<rparr>],
             newFieldLabel = [], newFieldType = js ''text'', message = [], alerts = []\<rparr>
   \<and> \<not> distinct (map id'
          [\<lparr>id' = 5, label = js ''a'', type' = js ''text'', value' = [], error = None\<rparr>,
           \<lparr>id' = 5, label = js ''b'', type' = js ''text'', value' = [], error = None\<rparr>])"
  by code_simp

lemma map_throwing_ids:
  "map_throwing g xs = Inr ys \<Longrightarrow> (\<And>x y. g x = Inr y \<Longrightarrow> id' y = id' x) \<Longrightarrow>
   map id' ys = map id' xs"
proof (induction xs arbitrary: ys)
  case Nil
  then show ?case by simp
next
  case (Cons x xs)
  from Cons.prems(1) obtain y ys' where y: "g x = Inr y" "map_throwing g xs = Inr ys'" "ys = y # ys'"
    by (auto split: sum.splits)
  from Cons.IH [OF y(2) Cons.prems(2)] have "map id' ys' = map id' xs" by simp
  with y Cons.prems(2) show ?case by simp
qed

lemma update_record_id: "update_record key v f = Inr u \<Longrightarrow> id' u = id' f"
  by (auto simp: update_record_def split: field_key.splits option.splits)

lemma updateField_ids:
  assumes "updateField i key v st = Inr st'"
  shows "map id' (fields' st') = map id' (fields' st)"
proof -
  from assms obtain us where
    us: "map_throwing (\<lambda>field. if id' field = i then update_record key v field else Inr field)
           (fields' st) = Inr us" and st': "st' = st\<lparr>fields' := us\<rparr>"
    by (auto simp: updateField_def updateField_effects_def run_def split: sum.splits)
  have "map id' us = map id' (fields' st)"
    using us by (rule map_throwing_ids) (auto split: if_splits dest: update_record_id)
  with st' show ?thesis by simp
qed

lemma save_loop_ids:
  "save_loop fs h = Inr (us, h') \<Longrightarrow> map id' us = map id' fs"
proof (induction fs arbitrary: h us h')
  case Nil
  then show ?case by simp
next
  case (Cons f fs)
  then show ?case
    by (auto simp: Let_def split: option.splits sum.splits)
qed

lemma saveForm_ids:
  assumes "saveForm st = Inr st'"
  shows "map id' (fields' st') = map id' (fields' st)"
proof -
  from assms obtain us h where us: "save_loop (fields' st) False = Inr (us, h)"
    and st': "fields' st' = us"
    by (auto simp: saveForm_def saveForm_effects_def run_def split: sum.splits)
  from us have "map id' us = map id' (fields' st)" by (rule save_loop_ids)
  with st' show ?thesis by simp
qed

lemma updateType_ids: "map id' (fields' (updateType t i st)) = map id' (fields' st)"
  by (simp add: updateType_def updateType_effects_def comp_def if_distrib cong: if_cong)

lemma removeField_ids_filter:
  "map id' (fields' (removeField i st)) = filter (\<lambda>j. j \<noteq> i) (map id' (fields' st))"
  by (simp add: removeField_eq filter_map comp_def)

lemma addField_ids:
  "map id' (fields' (addField now st)) =
     (if truthy (js_trim (newFieldLabel st)) then map id' (fields' st) @ [now]
      else map id' (fields' st))"
  by (simp add: addField_def addField_effects_def)

lemma handle_ids:
  assumes "handle e s = Inr s'"
  shows "map id' (fields' s') =
           (case e of
              Click_add now \<Rightarrow> if truthy (js_trim (newFieldLabel s))
                               then map id' (fields' s) @ [now] else map id' (fields' s)
            | Click_remove i \<Rightarrow> filter (\<lambda>j. j \<noteq> i) (map id' (fields' s))
            | _ \<Rightarrow> map id' (fields' s))"
proof (cases e)
  case (Type_new_label v)
  with assms show ?thesis by auto
next
  case (Pick_new_type t)
  with assms show ?thesis by auto
next
  case (Click_add now)
  with assms show ?thesis by (auto simp: addField_ids)
next
  case (Edit_value i v)
  with assms show ?thesis by (simp add: updateField_ids)
next
  case (Click_rename i answer)
  with assms show ?thesis
    by (auto simp: updateLabel_def updateField_ids split: option.splits if_splits)
next
  case (Pick_type i t)
  with assms show ?thesis by (auto simp: updateType_ids)
next
  case (Click_remove i)
  with assms show ?thesis by (auto simp: removeField_ids_filter)
next
  case Click_save
  with assms show ?thesis by (simp add: saveForm_ids)
qed

lemma session_distinct:
  "session evs s = Some st \<Longrightarrow> clock_fresh evs s \<Longrightarrow> distinct (map id' (fields' s)) \<Longrightarrow>
   distinct (map id' (fields' st))"
proof (induction evs arbitrary: s)
  case Nil
  then show ?case by simp
next
  case (Cons e evs)
  from Cons.prems(1) obtain s' where h: "handle e s = Inr s'" and r: "session evs s' = Some st"
    by (auto split: sum.splits if_splits)
  from Cons.prems(2) h have cf: "clock_fresh evs s'"
    and fr: "case e of Click_add now \<Rightarrow> now \<notin> set (map id' (fields' s)) | _ \<Rightarrow> True"
    by auto
  have "distinct (map id' (fields' s'))"
    using handle_ids [OF h] fr Cons.prems(3) by (cases e) (auto split: if_splits)
  from Cons.IH [OF r cf this] show ?case .
qed

text \<open>
  C10, amended: in every state reached from the initial one by events in which each add
  reads a clock value that no record of the list carries at that moment, the identifiers
  of the records are pairwise distinct; and no handler changes the identifier of a record:
  after an add the identifiers are the old ones, followed by the clock value when a record
  was created; after a removal they are the old ones without the removed identifier; after
  every other event they are the old ones.
\<close>

theorem ids_unique_with_fresh_clock:
  "(session evs init = Some st \<and> clock_fresh evs init \<longrightarrow> distinct (map id' (fields' st)))
   \<and> (handle e s = Inr s' \<longrightarrow>
        map id' (fields' s') =
           (case e of
              Click_add now \<Rightarrow> if truthy (js_trim (newFieldLabel s))
                               then map id' (fields' s) @ [now] else map id' (fields' s)
            | Click_remove i \<Rightarrow> filter (\<lambda>j. j \<noteq> i) (map id' (fields' s))
            | _ \<Rightarrow> map id' (fields' s)))"
proof (intro conjI impI)
  assume "session evs init = Some st \<and> clock_fresh evs init"
  then show "distinct (map id' (fields' st))"
    using session_distinct [of evs init st] by (simp add: init_def)
next
  assume "handle e s = Inr s'"
  then show "map id' (fields' s') =
           (case e of
              Click_add now \<Rightarrow> if truthy (js_trim (newFieldLabel s))
                               then map id' (fields' s) @ [now] else map id' (fields' s)
            | Click_remove i \<Rightarrow> filter (\<lambda>j. j \<noteq> i) (map id' (fields' s))
            | _ \<Rightarrow> map id' (fields' s))"
    by (rule handle_ids)
qed

theorem ids_unique_with_fresh_clock_witness:
  "session [Type_new_label (js ''a''), Click_add 5, Type_new_label (js ''b''), Click_add 6] init
     = Some \<lparr>fields' = [\<lparr>id' = 5, label = js ''a'', type' = js ''text'', value' = [], error = None\<rparr>,
                          \<lparr>id' = 6, label = js ''b'', type' = js ''text'', value' = [], error = None\<rparr>],
             newFieldLabel = [], newFieldType = js ''text'', message = [], alerts = []\<rparr>
   \<and> clock_fresh [Type_new_label (js ''a''), Click_add 5, Type_new_label (js ''b''), Click_add 6] init
   \<and> distinct (map id' (fields'
        \<lparr>fields' = [\<lparr>id' = 5, label = js ''a'', type' = js ''text'', value' = [], error = None\<rparr>,
                          \<lparr>id' = 6, label = js ''b'', type' = js ''text'', value' = [], error = None\<rparr>],
             newFieldLabel = [], newFieldType = js ''text'', message = [], alerts = []\<rparr>))
   \<and> handle (Click_remove 5)
        \<lparr>fields' = [\<lparr>id' = 5, label = js ''a'', type' = js ''text'', value' = [], error = None\<rparr>,
                          \<lparr>id' = 6, label = js ''b'', type' = js ''text'', value' = [], error = None\<rparr>],
             newFieldLabel = [], newFieldType = js ''text'', message = [], alerts = []\<rparr>
       = Inr (init\<lparr>fields' := [\<lparr>id' = 6, label = js ''b'', type' = js ''text'', value' = [],
                                  error = None\<rparr>]\<rparr>)
   \<and> map id' (fields' (init\<lparr>fields' := [\<lparr>id' = 6, label = js ''b'', type' = js ''text'',
                                           value' = [], error = None\<rparr>]\<rparr>)) = [6]"
proof -
  let ?E = "[Type_new_label (js ''a''), Click_add 5, Type_new_label (js ''b''), Click_add 6]"
  let ?ST = "\<lparr>fields' = [\<lparr>id' = 5, label = js ''a'', type' = js ''text'', value' = [], error = None\<rparr>,
                          \<lparr>id' = 6, label = js ''b'', type' = js ''text'', value' = [], error = None\<rparr>],
             newFieldLabel = [], newFieldType = js ''text'', message = [], alerts = []\<rparr>"
  let ?S2 = "init\<lparr>fields' := [\<lparr>id' = 6, label = js ''b'', type' = js ''text'', value' = [],
                                  error = None\<rparr>]\<rparr>"
  have a: "session ?E init = Some ?ST" by code_simp
  have b: "clock_fresh ?E init" by code_simp
  have c: "handle (Click_remove 5) ?ST = Inr ?S2" by code_simp
  note t = ids_unique_with_fresh_clock [where evs = ?E and st = ?ST and e = "Click_remove 5"
      and s = ?ST and s' = ?S2]
  from t a b have d: "distinct (map id' (fields' ?ST))" by blast
  from t c have "map id' (fields' ?S2) =
           (case Click_remove 5 of
              Click_add now \<Rightarrow> if truthy (js_trim (newFieldLabel ?ST))
                               then map id' (fields' ?ST) @ [now] else map id' (fields' ?ST)
            | Click_remove i \<Rightarrow> filter (\<lambda>j. j \<noteq> i) (map id' (fields' ?ST))
            | _ \<Rightarrow> map id' (fields' ?ST))" by blast
  then have e: "map id' (fields' ?S2) = [6]" by simp
  from a b c d e show ?thesis by blast
qed

end
